theory Spec2Isabelle
  imports Complex_Main "HOL-Library.AList"
begin

section \<open>JavaScript strings\<close>

text \<open>
  A JavaScript string is a sequence of UTF-16 code units. The tokenizer's patterns
  name Cyrillic letters and its \<^verbatim>\<open>.\<close> excludes U+2028 and U+2029, so the 8-bit
  \<^typ>\<open>char\<close> is too small: a code unit is a natural number. \<open>js\<close> turns an ASCII
  literal into such a string.
\<close>

type_synonym jschar = nat
type_synonym jsstring = "jschar list"

definition js :: "string \<Rightarrow> jsstring" where
  "js s = map of_char s"

datatype js_error = TypeError

text \<open>The character classes of the patterns in \<^verbatim>\<open>text.ts\<close> (no pattern has a flag).\<close>

definition isDigit :: "jschar \<Rightarrow> bool" where
  \<comment> \<open>\<^verbatim>\<open>\d\<close>\<close>
  "isDigit c \<longleftrightarrow> 48 \<le> c \<and> c \<le> 57"

definition isWordChar :: "jschar \<Rightarrow> bool" where
  \<comment> \<open>\<^verbatim>\<open>\w\<close>: A-Z, a-z, 0-9 and the underscore\<close>
  "isWordChar c \<longleftrightarrow> (65 \<le> c \<and> c \<le> 90) \<or> (97 \<le> c \<and> c \<le> 122) \<or> isDigit c \<or> c = 95"

definition isCyrillic :: "jschar \<Rightarrow> bool" where
  \<comment> \<open>the ranges U+0430..U+044F and U+0410..U+042F, and U+0451, U+0401 of \<^verbatim>\<open>NON_WORDS\<close>\<close>
  "isCyrillic c \<longleftrightarrow> (0x430 \<le> c \<and> c \<le> 0x44F) \<or> (0x410 \<le> c \<and> c \<le> 0x42F) \<or> c = 0x451 \<or> c = 0x401"

definition isLineTerminator :: "jschar \<Rightarrow> bool" where
  \<comment> \<open>what \<^verbatim>\<open>.\<close> does not match: LF, CR, U+2028, U+2029\<close>
  "isLineTerminator c \<longleftrightarrow> c = 10 \<or> c = 13 \<or> c = 0x2028 \<or> c = 0x2029"

definition isWhiteSpace :: "jschar \<Rightarrow> bool" where
  \<comment> \<open>what \<^verbatim>\<open>String.prototype.trim\<close> removes: white space and line terminators\<close>
  "isWhiteSpace c \<longleftrightarrow>
     c = 9 \<or> c = 10 \<or> c = 11 \<or> c = 12 \<or> c = 13 \<or> c = 32 \<or> c = 0xA0 \<or> c = 0x1680 \<or>
     (0x2000 \<le> c \<and> c \<le> 0x200A) \<or> c = 0x2028 \<or> c = 0x2029 \<or> c = 0x202F \<or>
     c = 0x205F \<or> c = 0x3000 \<or> c = 0xFEFF"

definition isBoundary :: "jschar \<Rightarrow> bool" where
  \<comment> \<open>the class of \<^verbatim>\<open>WORD_BOUNDARY\<close>: space, LF, CR, tab, double quote, bar, comma,
      parentheses, square brackets, slash\<close>
  "isBoundary c \<longleftrightarrow>
     c = 32 \<or> c = 10 \<or> c = 13 \<or> c = 9 \<or> c = 34 \<or> c = 124 \<or> c = 44 \<or>
     c = 40 \<or> c = 41 \<or> c = 91 \<or> c = 93 \<or> c = 47"

section \<open>The strip patterns\<close>

text \<open>
  The four strip patterns have one shape, \<^verbatim>\<open>^(L)?(.*?)(R)?$\<close>, where \<open>L\<close> and \<open>R\<close>
  are alternatives of literal strings or of runs \<^verbatim>\<open>c+\<close> of one character. A pattern
  is the pair of the two lists of alternatives, and \<open>regexp_exec\<close> is the backtracking
  search of \<^verbatim>\<open>RegExp.prototype.exec\<close> on that shape, in the engine's order of choices:
  the greedy optional group tries its alternatives from left to right (a run from its
  longest match down to one character) and then the empty match; the lazy \<^verbatim>\<open>.*?\<close>
  tries the shortest match first and grows by one character that is not a line
  terminator; \<^verbatim>\<open>$\<close> holds at the end of the input only. The result is capture
  group 2 of the first successful choice, or \<open>None\<close> when \<^verbatim>\<open>exec\<close> returns null.
\<close>

datatype marker = Lit jsstring | Run jschar

type_synonym pattern = "marker list \<times> marker list"

fun countdown :: "nat \<Rightarrow> nat list" where
  "countdown 0 = []"
| "countdown (Suc n) = Suc n # countdown n"

fun marker_matches :: "marker \<Rightarrow> jsstring \<Rightarrow> nat list" where
  "marker_matches (Lit l) s = (if take (length l) s = l then [length l] else [])"
| "marker_matches (Run c) s = countdown (length (takeWhile (\<lambda>x. x = c) s))"

definition group_choices :: "marker list \<Rightarrow> jsstring \<Rightarrow> nat list" where
  \<comment> \<open>the lengths \<^verbatim>\<open>(m1|m2|...)?\<close> can consume at the start of \<open>s\<close>, best first\<close>
  "group_choices ms s = concat (map (\<lambda>m. marker_matches m s) ms) @ [0]"

definition at_end :: "marker list \<Rightarrow> jsstring \<Rightarrow> bool" where
  \<comment> \<open>\<^verbatim>\<open>(R)?$\<close> matches the remaining input \<open>s\<close>\<close>
  "at_end ms s = list_ex (\<lambda>n. n = length s) (group_choices ms s)"

fun lazy_any :: "marker list \<Rightarrow> jsstring \<Rightarrow> jsstring \<Rightarrow> jsstring option" where
  "lazy_any ms acc [] = (if at_end ms [] then Some (rev acc) else None)"
| "lazy_any ms acc (c # cs) =
     (if at_end ms (c # cs) then Some (rev acc)
      else if isLineTerminator c then None
      else lazy_any ms (c # acc) cs)"

fun first_some :: "('a \<Rightarrow> 'b option) \<Rightarrow> 'a list \<Rightarrow> 'b option" where
  "first_some f [] = None"
| "first_some f (x # xs) = (case f x of Some y \<Rightarrow> Some y | None \<Rightarrow> first_some f xs)"

definition regexp_exec :: "pattern \<Rightarrow> jsstring \<Rightarrow> jsstring option" where
  "regexp_exec p token =
     first_some (\<lambda>n. lazy_any (snd p) [] (drop n token)) (group_choices (fst p) token)"

definition STRIP_HIGHLIGHTS :: pattern where
  \<comment> \<open>\<^verbatim>\<open>/^(==)?(.*?)(==)?$/\<close>\<close>
  "STRIP_HIGHLIGHTS = ([Lit (js ''=='')], [Lit (js ''=='')])"

definition STRIP_FORMATTING :: pattern where
  \<comment> \<open>\<^verbatim>\<open>/^(_+|\*+)?(.*?)(_+|\*+)?$/\<close>: 95 is the underscore, 42 the asterisk\<close>
  "STRIP_FORMATTING = ([Run 95, Run 42], [Run 95, Run 42])"

definition punctuation :: "marker list" where
  \<comment> \<open>backtick, period, colon, double quote, comma, exclamation mark, question mark\<close>
  "punctuation = [Lit [96], Lit [46], Lit [58], Lit [34], Lit [44], Lit [33], Lit [63]]"

definition STRIP_PUNCTUATION :: pattern where
  \<comment> \<open>\<^verbatim>\<open>/^(`|\.|:|"|,|!|\?)?(.*?)(`|\.|:|"|,|!|\?)?$/\<close>\<close>
  "STRIP_PUNCTUATION = (punctuation, punctuation)"

definition STRIP_WIKI_LINKS :: pattern where
  \<comment> \<open>\<^verbatim>\<open>/^(\[\[)?(.*?)(\]\])?$/\<close>\<close>
  "STRIP_WIKI_LINKS = ([Lit (js ''[['')], [Lit (js '']]'')])"

section \<open>MarkdownTokenizer\<close>

definition isNonWord :: "jsstring \<Rightarrow> bool" where
  \<comment> \<open>\<^verbatim>\<open>/^[^\w...]+$/\<close>: one or more characters, none a word character or Cyrillic letter\<close>
  "isNonWord token \<longleftrightarrow> token \<noteq> [] \<and> list_all (\<lambda>c. \<not> isWordChar c \<and> \<not> isCyrillic c) token"

definition isNumber :: "jsstring \<Rightarrow> bool" where
  \<comment> \<open>\<^verbatim>\<open>/^\d+(\.\d+)?$/\<close>\<close>
  "isNumber token \<longleftrightarrow>
     (let ds = takeWhile isDigit token; rest = dropWhile isDigit token
      in ds \<noteq> [] \<and>
         (case rest of
            [] \<Rightarrow> True
          | c # ds2 \<Rightarrow> c = 46 \<and> ds2 \<noteq> [] \<and> list_all isDigit ds2))"

definition isCodeBlockHeader :: "jsstring \<Rightarrow> bool" where
  \<comment> \<open>\<^verbatim>\<open>/^```\w+$/\<close>\<close>
  "isCodeBlockHeader token \<longleftrightarrow>
     take 3 token = [96, 96, 96] \<and> drop 3 token \<noteq> [] \<and> list_all isWordChar (drop 3 token)"

definition strip :: "pattern \<Rightarrow> jsstring \<Rightarrow> jsstring" where
  \<comment> \<open>a match always has four entries, so \<^verbatim>\<open>match.length >= 3\<close> holds whenever it is not null\<close>
  "strip pat token = (case regexp_exec pat token of Some g \<Rightarrow> g | None \<Rightarrow> [])"

text \<open>
  The four strip methods call \<^verbatim>\<open>this.strip\<close>, so what they do depends on the receiver
  they are invoked with. A class body is strict code: invoked as a plain function a
  method has \<^verbatim>\<open>this === undefined\<close>, and reading \<^verbatim>\<open>this.strip\<close> throws a TypeError.
\<close>

datatype receiver = Undefined | Tokenizer

definition this_strip :: "receiver \<Rightarrow> pattern \<Rightarrow> jsstring \<Rightarrow> js_error + jsstring" where
  "this_strip this pat token =
     (case this of Undefined \<Rightarrow> Inl TypeError | Tokenizer \<Rightarrow> Inr (strip pat token))"

definition stripHighlights :: "receiver \<Rightarrow> jsstring \<Rightarrow> js_error + jsstring" where
  "stripHighlights this token = this_strip this STRIP_HIGHLIGHTS token"

definition stripFormatting :: "receiver \<Rightarrow> jsstring \<Rightarrow> js_error + jsstring" where
  "stripFormatting this token = this_strip this STRIP_FORMATTING token"

definition stripPunctuation :: "receiver \<Rightarrow> jsstring \<Rightarrow> js_error + jsstring" where
  "stripPunctuation this token = this_strip this STRIP_PUNCTUATION token"

definition stripWikiLinks :: "receiver \<Rightarrow> jsstring \<Rightarrow> js_error + jsstring" where
  "stripWikiLinks this token = this_strip this STRIP_WIKI_LINKS token"

definition and_then :: "js_error + 'a \<Rightarrow> ('a \<Rightarrow> js_error + 'b) \<Rightarrow> js_error + 'b" where
  "and_then r f = (case r of Inl e \<Rightarrow> Inl e | Inr x \<Rightarrow> f x)"

definition strip_pass :: "receiver \<Rightarrow> jsstring \<Rightarrow> js_error + jsstring" where
  \<comment> \<open>\<^verbatim>\<open>[token].map(f1, thisArg).map(f2, thisArg).map(f3, thisArg).map(f4, thisArg)[0]\<close>:
      \<^verbatim>\<open>Array.prototype.map\<close> invokes its callback with \<open>thisArg\<close> as receiver\<close>
  "strip_pass thisArg token =
     and_then (and_then (and_then (stripHighlights thisArg token) (stripFormatting thisArg))
       (stripPunctuation thisArg)) (stripWikiLinks thisArg)"

text \<open>
  Each strip returns capture group 2, a contiguous piece of its input, or the empty
  string when the pattern does not match. So a strip never lengthens a token, and a strip
  that keeps the length keeps the token. This is what makes the loop of
  \<^verbatim>\<open>stripAll\<close> terminate.
\<close>

lemma first_some_Some: "first_some f xs = Some y \<Longrightarrow> \<exists>x \<in> set xs. f x = Some y"
  by (induction xs) (auto split: option.splits)

lemma lazy_any_piece: "lazy_any ms acc s = Some g \<Longrightarrow> \<exists>n. g = rev acc @ take n s"
proof (induction s arbitrary: acc)
  case Nil
  then show ?case by (auto split: if_splits)
next
  case (Cons c cs)
  show ?case
  proof (cases "at_end ms (c # cs)")
    case True
    with Cons.prems have "g = rev acc @ take 0 (c # cs)" by simp
    then show ?thesis by blast
  next
    case False
    with Cons.prems have "lazy_any ms (c # acc) cs = Some g"
      by (auto split: if_splits)
    from Cons.IH [OF this] obtain n where "g = rev (c # acc) @ take n cs" by blast
    then have "g = rev acc @ take (Suc n) (c # cs)" by simp
    then show ?thesis by blast
  qed
qed

lemma regexp_exec_piece:
  assumes "regexp_exec p token = Some g"
  shows "\<exists>l n. g = take n (drop l token)"
proof -
  from assms obtain l where "lazy_any (snd p) [] (drop l token) = Some g"
    unfolding regexp_exec_def by (blast dest: first_some_Some)
  from lazy_any_piece [OF this] obtain n where "g = take n (drop l token)" by auto
  then show ?thesis by blast
qed

lemma strip_piece: "strip p token = [] \<or> (\<exists>l n. strip p token = take n (drop l token))"
  unfolding strip_def
  by (cases "regexp_exec p token") (auto dest: regexp_exec_piece)

lemma take_drop_full:
  assumes "length (take n (drop l xs)) = length xs"
  shows "take n (drop l xs) = xs"
proof (cases xs)
  case Nil
  then show ?thesis by simp
next
  case (Cons x xs')
  from assms have "min (length xs - l) n = length xs" by simp
  with Cons have "l = 0" and "length xs \<le> n" by auto
  then show ?thesis by simp
qed

lemma strip_length_le: "length (strip p token) \<le> length token"
  using strip_piece [of p token] by auto

lemma strip_length_eq:
  assumes "length (strip p token) = length token"
  shows "strip p token = token"
proof -
  from strip_piece [of p token] consider "strip p token = []"
    | l n where "strip p token = take n (drop l token)" by blast
  then show ?thesis
  proof cases
    case 1
    with assms show ?thesis by simp
  next
    case 2
    with assms have "length (take n (drop l token)) = length token" by simp
    from take_drop_full [OF this] 2 show ?thesis by simp
  qed
qed

lemma strip_cases: "strip p token = token \<or> length (strip p token) < length token"
  using strip_length_le [of p token] strip_length_eq [of p token] by linarith

lemma this_strip_cases:
  "this_strip this p token = Inr token' \<Longrightarrow> token' = token \<or> length token' < length token"
  using strip_cases [of p token] by (auto simp: this_strip_def split: receiver.splits)

lemma strip_pass_cases:
  assumes "strip_pass thisArg token = Inr token'"
  shows "token' = token \<or> length token' < length token"
proof -
  from assms obtain t1 t2 t3 where
    s1: "stripHighlights thisArg token = Inr t1" and
    s2: "stripFormatting thisArg t1 = Inr t2" and
    s3: "stripPunctuation thisArg t2 = Inr t3" and
    s4: "stripWikiLinks thisArg t3 = Inr token'"
    by (auto simp: strip_pass_def and_then_def split: sum.splits)
  have c1: "t1 = token \<or> length t1 < length token"
    using s1 by (simp add: stripHighlights_def this_strip_cases)
  have c2: "t2 = t1 \<or> length t2 < length t1"
    using s2 by (simp add: stripFormatting_def this_strip_cases)
  have c3: "t3 = t2 \<or> length t3 < length t2"
    using s3 by (simp add: stripPunctuation_def this_strip_cases)
  have c4: "token' = t3 \<or> length token' < length t3"
    using s4 by (simp add: stripWikiLinks_def this_strip_cases)
  from c1 c2 c3 c4 show ?thesis by auto
qed

text \<open>
  The loop of \<^verbatim>\<open>stripAll\<close>: \<^verbatim>\<open>while (!isFixedPoint) { prev = token; token = pass(token);
  isFixedPoint = isFixedPoint || prev === token }\<close>. A pass that throws leaves the loop
  and the method with the error.
\<close>

function stripAll_loop :: "receiver \<Rightarrow> jsstring \<Rightarrow> js_error + jsstring" where
  "stripAll_loop thisArg token =
     (case strip_pass thisArg token of
        Inl e \<Rightarrow> Inl e
      | Inr token' \<Rightarrow> if token' = token then Inr token' else stripAll_loop thisArg token')"
  by pat_completeness auto
termination
proof (relation "measure (\<lambda>(thisArg, token). length token)")
  show "wf (measure (\<lambda>(thisArg, token). length token))" by simp
next
  fix thisArg :: receiver and token token' :: jsstring
  assume "strip_pass thisArg token = Inr token'" and "token' \<noteq> token"
  then have "length token' < length token"
    using strip_pass_cases by blast
  then show "((thisArg, token'), (thisArg, token)) \<in> measure (\<lambda>(thisArg, token). length token)"
    by simp
qed

declare stripAll_loop.simps [simp del]

text \<open>The same loop with a bound on the number of passes; \<open>None\<close> is "bound reached".\<close>

fun stripAll_iter :: "nat \<Rightarrow> receiver \<Rightarrow> jsstring \<Rightarrow> (js_error + jsstring) option" where
  "stripAll_iter 0 thisArg token = None"
| "stripAll_iter (Suc n) thisArg token =
     (case strip_pass thisArg token of
        Inl e \<Rightarrow> Some (Inl e)
      | Inr token' \<Rightarrow> if token' = token then Some (Inr token') else stripAll_iter n thisArg token')"

definition stripAll_with :: "receiver \<Rightarrow> jsstring \<Rightarrow> js_error + jsstring" where
  \<comment> \<open>\<^verbatim>\<open>stripAll\<close>, its four \<^verbatim>\<open>map\<close> calls given \<open>thisArg\<close>\<close>
  "stripAll_with thisArg token = (if token = [] then Inr token else stripAll_loop thisArg token)"

definition stripAll :: "jsstring \<Rightarrow> js_error + jsstring" where
  \<comment> \<open>the source passes the methods to \<^verbatim>\<open>map\<close> without a \<open>thisArg\<close>: the callbacks run
      with \<^verbatim>\<open>this === undefined\<close>\<close>
  "stripAll token = stripAll_with Undefined token"

text \<open>
  \<^verbatim>\<open>content.split(WORD_BOUNDARY)\<close>: the pattern is a greedy run of boundary characters, so
  the separators are the maximal runs; a run at the start or at the end of the input
  leaves an empty string there.
\<close>

fun split_word :: "jsstring \<Rightarrow> jsstring \<Rightarrow> jsstring list"
  and split_boundary :: "jsstring \<Rightarrow> jsstring list" where
  "split_word cur [] = [rev cur]"
| "split_word cur (c # cs) =
     (if isBoundary c then rev cur # split_boundary cs else split_word (c # cur) cs)"
| "split_boundary [] = [[]]"
| "split_boundary (c # cs) = (if isBoundary c then split_boundary cs else split_word [c] cs)"

definition split_WORD_BOUNDARY :: "jsstring \<Rightarrow> jsstring list" where
  "split_WORD_BOUNDARY content = split_word [] content"

fun map_result :: "('a \<Rightarrow> js_error + 'b) \<Rightarrow> 'a list \<Rightarrow> js_error + 'b list" where
  "map_result f [] = Inr []"
| "map_result f (x # xs) =
     (case f x of
        Inl e \<Rightarrow> Inl e
      | Inr y \<Rightarrow> (case map_result f xs of Inl e \<Rightarrow> Inl e | Inr ys \<Rightarrow> Inr (y # ys)))"

definition candidates :: "jsstring \<Rightarrow> jsstring list" where
  \<comment> \<open>the split and the three filters of \<^verbatim>\<open>tokenize\<close>: what reaches \<^verbatim>\<open>stripAll\<close>\<close>
  "candidates content =
     filter (\<lambda>token. \<not> isCodeBlockHeader token)
       (filter (\<lambda>token. \<not> isNumber token)
         (filter (\<lambda>token. \<not> isNonWord token) (split_WORD_BOUNDARY content)))"

definition tokenize_with :: "receiver \<Rightarrow> jsstring \<Rightarrow> js_error + jsstring list" where
  "tokenize_with thisArg content =
     (if list_all isWhiteSpace content then Inr []
      else and_then (map_result (stripAll_with thisArg) (candidates content))
             (\<lambda>words. Inr (filter (\<lambda>token. length token > 0) words)))"

definition tokenize :: "jsstring \<Rightarrow> js_error + jsstring list" where
  \<comment> \<open>\<^verbatim>\<open>MarkdownTokenizer.tokenize\<close>, with \<^verbatim>\<open>stripAll\<close> as the source has it\<close>
  "tokenize content = tokenize_with Undefined content"

section \<open>FullVaultMetrics\<close>

text \<open>
  The fields that the collectors assign. \<^verbatim>\<open>size\<close> is written \<open>size_bytes\<close>. The counts
  are JavaScript numbers holding integers, modelled as \<^typ>\<open>int\<close>; \<^verbatim>\<open>quality\<close> is a
  quotient, modelled as \<^typ>\<open>real\<close>.
\<close>

record FullVaultMetrics =
  files :: int
  "notes" :: int
  attachments :: int
  size_bytes :: int
  links :: int
  words :: int
  quality :: real
  tags :: int

text \<open>
  Modelled from the spec: the class \<^verbatim>\<open>FullVaultMetrics\<close> (module \<^verbatim>\<open>./metrics\<close>) is not
  among the sources. \<open>new_FullVaultMetrics\<close> is the "zero record" that
  \<^verbatim>\<open>new FullVaultMetrics()\<close> stands for in \<^verbatim>\<open>update\<close>.
\<close>

definition new_FullVaultMetrics :: FullVaultMetrics where
  "new_FullVaultMetrics =
     \<lparr>files = 0, notes = 0, attachments = 0, size_bytes = 0, links = 0, words = 0,
      quality = 0, tags = 0\<rparr>"

text \<open>
  Modelled from the spec: the quality of a record is "linkCount/documents", and 0.0
  when there is no document; the aggregate's quality "is recomputed, not summed".
\<close>

definition recompute_quality :: "FullVaultMetrics \<Rightarrow> FullVaultMetrics" where
  "recompute_quality vm =
     vm\<lparr>quality := (if notes vm \<noteq> 0 then real_of_int (links vm) / real_of_int (notes vm) else 0)\<rparr>"

text \<open>
  Modelled from the spec: \<^verbatim>\<open>dec\<close> subtracts a record from the aggregate "field-wise"
  (files, documents, attachments, size, links, words, tags).
\<close>

definition dec :: "FullVaultMetrics \<Rightarrow> FullVaultMetrics \<Rightarrow> FullVaultMetrics" where
  "dec vm m =
     recompute_quality
       (vm\<lparr>files := files vm - files m, notes := notes vm - notes m,
           attachments := attachments vm - attachments m,
           size_bytes := size_bytes vm - size_bytes m, links := links vm - links m,
           words := words vm - words m, tags := tags vm - tags m\<rparr>)"

text \<open>
  Modelled from the spec: \<^verbatim>\<open>inc\<close> adds a record to the aggregate "field-wise".
\<close>

definition inc :: "FullVaultMetrics \<Rightarrow> FullVaultMetrics \<Rightarrow> FullVaultMetrics" where
  "inc vm m =
     recompute_quality
       (vm\<lparr>files := files vm + files m, notes := notes vm + notes m,
           attachments := attachments vm + attachments m,
           size_bytes := size_bytes vm + size_bytes m, links := links vm + links m,
           words := words vm + words m, tags := tags vm + tags m\<rparr>)"

section \<open>The collaborators: vault and metadata cache\<close>

text \<open>
  The values of Obsidian's API that the collector reads, with the fields it reads, typed
  as the API declares them (\<^verbatim>\<open>extension\<close> and \<^verbatim>\<open>stat\<close> of a \<^verbatim>\<open>TFile\<close> and
  \<^verbatim>\<open>position\<close> of a section are always present; \<^verbatim>\<open>links\<close>, \<^verbatim>\<open>tags\<close> and
  \<^verbatim>\<open>sections\<close> of the metadata are optional). Of a link or a tag only its presence
  in the array counts.
\<close>

record TFile =
  path :: jsstring
  extension :: jsstring
  stat_size :: int

datatype abstract_file = File TFile | Folder jsstring

record SectionCache =
  section_type :: jsstring
  start_offset :: nat
  end_offset :: nat

record CachedMetadata =
  md_links :: "unit list option"
  md_tags :: "unit list option"
  md_sections :: "SectionCache list option"

datatype cache_result = Cache CachedMetadata | CacheNull | CacheThrows

text \<open>
  The environment of one drain: what the vault and the metadata cache answer.
  \<^verbatim>\<open>cachedRead\<close> gives the content, or \<open>None\<close> when its promise is rejected.
\<close>

record environment =
  getAbstractFileByPath :: "jsstring \<Rightarrow> abstract_file option"
  getFileCache :: "TFile \<Rightarrow> cache_result"
  cachedRead :: "TFile \<Rightarrow> jsstring option"

section \<open>The per-document collectors\<close>

datatype tokenizer = UNIT_TOKENIZER | MARKDOWN_TOKENIZER

definition tokenizer_tokenize :: "tokenizer \<Rightarrow> jsstring \<Rightarrow> js_error + jsstring list" where
  "tokenizer_tokenize t content =
     (case t of UNIT_TOKENIZER \<Rightarrow> Inr [] | MARKDOWN_TOKENIZER \<Rightarrow> tokenize content)"

definition TOKENIZERS :: "(jsstring \<times> tokenizer) list" where
  "TOKENIZERS =
     [(js ''paragraph'', MARKDOWN_TOKENIZER),
      (js ''heading'', MARKDOWN_TOKENIZER),
      (js ''list'', MARKDOWN_TOKENIZER),
      (js ''table'', UNIT_TOKENIZER),
      (js ''yaml'', UNIT_TOKENIZER),
      (js ''code'', UNIT_TOKENIZER),
      (js ''blockquote'', MARKDOWN_TOKENIZER),
      (js ''math'', UNIT_TOKENIZER),
      (js ''thematicBreak'', UNIT_TOKENIZER),
      (js ''html'', UNIT_TOKENIZER),
      (js ''text'', UNIT_TOKENIZER),
      (js ''element'', UNIT_TOKENIZER),
      (js ''footnoteDefinition'', UNIT_TOKENIZER),
      (js ''definition'', UNIT_TOKENIZER),
      (js ''callout'', MARKDOWN_TOKENIZER),
      (js ''comment'', UNIT_TOKENIZER)]"

definition substring :: "jsstring \<Rightarrow> nat \<Rightarrow> nat \<Rightarrow> jsstring" where
  \<comment> \<open>\<^verbatim>\<open>String.prototype.substring\<close>: both indices clamped to the length, swapped if needed\<close>
  "substring s a b =
     (let a' = min a (length s); b' = min b (length s)
      in take (max a' b' - min a' b') (drop (min a' b') s))"

definition section_words :: "jsstring \<Rightarrow> SectionCache \<Rightarrow> js_error + int" where
  "section_words content section =
     (case map_of TOKENIZERS (section_type section) of
        None \<Rightarrow> Inr 0
      | Some t \<Rightarrow>
          and_then
            (tokenizer_tokenize t (substring content (start_offset section) (end_offset section)))
            (\<lambda>tokens. Inr (int (length tokens))))"

definition count_words :: "environment \<Rightarrow> TFile \<Rightarrow> CachedMetadata \<Rightarrow> int" where
  \<comment> \<open>\<^verbatim>\<open>cachedRead(file).then(...).catch(...)\<close> and \<^verbatim>\<open>words ?? 0\<close>: a rejected read and
      an exception in the callback both give 0, and so do absent sections\<close>
  "count_words env file metadata =
     (case cachedRead env file of
        None \<Rightarrow> 0
      | Some content \<Rightarrow>
          (case md_sections metadata of
             None \<Rightarrow> 0
           | Some sections \<Rightarrow>
               (case map_result (section_words content) sections of
                  Inl e \<Rightarrow> 0
                | Inr counts \<Rightarrow> sum_list counts)))"

definition array_length :: "'a list option \<Rightarrow> int" where
  \<comment> \<open>\<^verbatim>\<open>xs?.length || 0\<close> and \<^verbatim>\<open>xs?.length ?? 0\<close>\<close>
  "array_length xs = (case xs of None \<Rightarrow> 0 | Some ys \<Rightarrow> int (length ys))"

definition NoteMetricsCollector_collect ::
  "environment \<Rightarrow> TFile \<Rightarrow> CachedMetadata \<Rightarrow> FullVaultMetrics" where
  "NoteMetricsCollector_collect env file metadata =
     (let m1 = new_FullVaultMetrics\<lparr>files := 1, notes := 1, attachments := 0,
                 size_bytes := stat_size file, links := array_length (md_links metadata)\<rparr>;
          m2 = m1\<lparr>words := count_words env file metadata\<rparr>;
          m3 = m2\<lparr>quality :=
                 (if notes m2 \<noteq> 0 then real_of_int (links m2) / real_of_int (notes m2) else 0)\<rparr>
      in m3\<lparr>tags := array_length (md_tags metadata)\<rparr>)"

definition FileMetricsCollector_collect :: "TFile \<Rightarrow> CachedMetadata \<Rightarrow> FullVaultMetrics" where
  "FileMetricsCollector_collect file metadata =
     new_FullVaultMetrics\<lparr>files := 1, notes := 0, attachments := 1,
       size_bytes := stat_size file, links := 0, words := 0, quality := 0, tags := 0\<rparr>"

section \<open>FullVaultMetricsCollector\<close>

datatype FileType = Unknown | Note | Attachment

definition toLowerCase :: "jsstring \<Rightarrow> jsstring" where
  \<comment> \<open>exact on every code unit whose lower case contains an ASCII letter (A-Z, U+212A KELVIN
      SIGN, U+0130); the lower case of any other code unit is outside ASCII and the unit is
      left in place, the only use being the comparison with \<^verbatim>\<open>"md"\<close>\<close>
  "toLowerCase s =
     concat (map (\<lambda>c. if 65 \<le> c \<and> c \<le> 90 then [c + 32]
                       else if c = 0x212A then [107]
                       else if c = 0x130 then [105, 0x307]
                       else [c]) s)"

definition getFileType :: "TFile \<Rightarrow> FileType" where
  "getFileType file = (if toLowerCase (extension file) = js ''md'' then Note else Attachment)"

definition collect :: "environment \<Rightarrow> TFile \<Rightarrow> FullVaultMetrics option" where
  \<comment> \<open>\<open>None\<close> is the \<^verbatim>\<open>null\<close> (or \<^verbatim>\<open>undefined\<close>) that the method resolves to\<close>
  "collect env file =
     (let metadata = (case getFileCache env file of
                        Cache md \<Rightarrow> Some md
                      | CacheNull \<Rightarrow> None
                      | CacheThrows \<Rightarrow> None)
      in case metadata of
           None \<Rightarrow> None
         | Some md \<Rightarrow>
             (case getFileType file of
                Note \<Rightarrow> Some (NoteMetricsCollector_collect env file md)
              | Attachment \<Rightarrow> Some (FileMetricsCollector_collect file md)
              | Unknown \<Rightarrow> None))"

text \<open>
  The collector's own fields. \<^verbatim>\<open>data\<close> is a \<^verbatim>\<open>Map\<close>: an association list in
  insertion order, one entry per key. \<^verbatim>\<open>vaultMetrics\<close> is \<open>None\<close> when the collector
  was given none (every use is \<^verbatim>\<open>this.vaultMetrics?.\<close>).
\<close>

record collector =
  data :: "(jsstring \<times> FullVaultMetrics) list"
  backlog :: "jsstring list"
  excludeDirectories :: jsstring
  vaultMetrics :: "FullVaultMetrics option"

definition empty_state :: "jsstring \<Rightarrow> collector" where
  \<comment> \<open>the field initialisers of the class, and the excluded directories as configured\<close>
  "empty_state excl =
     \<lparr>data = [], backlog = [], excludeDirectories = excl,
      vaultMetrics = Some new_FullVaultMetrics\<rparr>"

definition push :: "abstract_file + jsstring \<Rightarrow> collector \<Rightarrow> collector" where
  \<comment> \<open>\<^verbatim>\<open>contains\<close> is the membership test that Obsidian adds to arrays\<close>
  "push fileOrPath st =
     (case fileOrPath of
        Inl (Folder _) \<Rightarrow> st
      | Inl (File file) \<Rightarrow>
          (if path file \<in> set (backlog st) then st
           else st\<lparr>backlog := backlog st @ [path file]\<rparr>)
      | Inr p \<Rightarrow>
          (if p \<in> set (backlog st) then st else st\<lparr>backlog := backlog st @ [p]\<rparr>))"

definition update :: "TFile + jsstring \<Rightarrow> FullVaultMetrics option \<Rightarrow> collector \<Rightarrow> collector" where
  \<comment> \<open>\<^verbatim>\<open>metrics\<close> is \<open>None\<close> for \<^verbatim>\<open>null\<close>; what the absent \<^verbatim>\<open>inc\<close> does with
      \<^verbatim>\<open>null\<close> is not in the sources, and it is taken to add nothing\<close>
  "update fileOrPath metrics st =
     (let key = (case fileOrPath of Inl file \<Rightarrow> path file | Inr p \<Rightarrow> p);
          old = (case map_of (data st) key of Some m \<Rightarrow> m | None \<Rightarrow> new_FullVaultMetrics);
          vm1 = map_option (\<lambda>vm. dec vm old) (vaultMetrics st);
          data' = (case metrics of
                     None \<Rightarrow> AList.delete key (data st)
                   | Some m \<Rightarrow> AList.update key m (data st));
          vm2 = (case metrics of None \<Rightarrow> vm1 | Some m \<Rightarrow> map_option (\<lambda>vm. inc vm m) vm1)
      in st\<lparr>data := data', vaultMetrics := vm2\<rparr>)"

text \<open>
  \<^verbatim>\<open>path.split("/")\<close> and \<^verbatim>\<open>excludeDirectories.includes(dir)\<close>: the second is the
  substring test of \<^verbatim>\<open>String.prototype.includes\<close>, the excluded directories being one
  string.
\<close>

fun split_slash :: "jsstring \<Rightarrow> jsstring list" where
  "split_slash [] = [[]]"
| "split_slash (c # cs) =
     (if c = 47 then [] # split_slash cs
      else (case split_slash cs of seg # segs \<Rightarrow> (c # seg) # segs | [] \<Rightarrow> [[c]]))"

fun string_includes :: "jsstring \<Rightarrow> jsstring \<Rightarrow> bool" where
  "string_includes [] dir = (dir = [])"
| "string_includes (c # cs) dir = (take (length dir) (c # cs) = dir \<or> string_includes cs dir)"

definition excluded :: "jsstring \<Rightarrow> jsstring \<Rightarrow> bool" where
  \<comment> \<open>\<^verbatim>\<open>path.split("/").some((dir) => this.excludeDirectories.includes(dir))\<close>\<close>
  "excluded excl p = list_ex (\<lambda>dir. string_includes excl dir) (split_slash p)"

text \<open>
  One turn of the loop of \<^verbatim>\<open>processBacklog\<close> after the exclusion test. Every call that
  can fail inside \<^verbatim>\<open>collect\<close> is caught there, so the \<^verbatim>\<open>catch\<close> of the loop has
  nothing left to catch.
\<close>

definition process_path :: "environment \<Rightarrow> jsstring \<Rightarrow> collector \<Rightarrow> collector" where
  "process_path env p st =
     (case getAbstractFileByPath env p of
        Some (File file) \<Rightarrow>
          (case collect env file of
             Some metrics \<Rightarrow> update (Inr p) (Some metrics) st
           | None \<Rightarrow> st)
      | _ \<Rightarrow> st)"

text \<open>
  The loop: \<^verbatim>\<open>shift\<close> takes the head of the backlog; an excluded path leaves the loop
  (\<^verbatim>\<open>break\<close>). The drain is taken as one uninterrupted run: no \<^verbatim>\<open>push\<close> arrives
  while it waits for a read. The excluded directories are a string, as the field is
  declared, and \<^verbatim>\<open>shift\<close> on a non-empty array never gives \<^verbatim>\<open>undefined\<close>, so the
  test \<^verbatim>\<open>path == null\<close> is never true.
\<close>

fun drain :: "environment \<Rightarrow> jsstring list \<Rightarrow> collector \<Rightarrow> collector" where
  "drain env [] st = st\<lparr>backlog := []\<rparr>"
| "drain env (p # rest) st =
     (if excluded (excludeDirectories st) p then st\<lparr>backlog := rest\<rparr>
      else drain env rest (process_path env p (st\<lparr>backlog := rest\<rparr>)))"

definition processBacklog :: "environment \<Rightarrow> collector \<Rightarrow> collector" where
  "processBacklog env st = drain env (backlog st) st"

text \<open>
  Modelled from the spec: \<^verbatim>\<open>reset\<close> of the absent class \<^verbatim>\<open>FullVaultMetrics\<close> makes
  the aggregate the zero record ("the aggregate is rebuilt fresh on each start").
  \<^verbatim>\<open>start\<close> empties the store and the backlog, resets the aggregate and pushes the
  files of the vault; the event handlers and the timer it registers are the pushes and
  drains that follow.
\<close>

definition start :: "TFile list \<Rightarrow> collector \<Rightarrow> collector" where
  "start vault_files st =
     foldl (\<lambda>s file. push (Inl (File file)) s)
       (st\<lparr>data := [], backlog := [],
           vaultMetrics := map_option (\<lambda>vm. new_FullVaultMetrics) (vaultMetrics st)\<rparr>)
       vault_files"





section \<open>Properties of the tokenizer\<close>

text \<open>The definitions that evaluate a strip and a tokenization on a given string.\<close>
lemmas strip_eval = js_def strip_pass_def and_then_def stripHighlights_def stripFormatting_def
  stripPunctuation_def stripWikiLinks_def this_strip_def strip_def regexp_exec_def group_choices_def
  at_end_def STRIP_HIGHLIGHTS_def STRIP_FORMATTING_def STRIP_PUNCTUATION_def punctuation_def
  STRIP_WIKI_LINKS_def isLineTerminator_def
lemmas tokenize_eval = tokenize_def tokenize_with_def candidates_def split_WORD_BOUNDARY_def
  isBoundary_def isWhiteSpace_def isNonWord_def isNumber_def isCodeBlockHeader_def isWordChar_def
  isDigit_def isCyrillic_def stripAll_with_def stripAll_def stripAll_loop.simps


text \<open>
  C5: the claim is that the tokenizer unwraps several layers of markers by iterating its
  four strips to a fixed point, so that \<^verbatim>\<open>tokenize("**_word_**")\<close> is \<^verbatim>\<open>["word"]\<close> and
  \<^verbatim>\<open>tokenize("==x==")\<close> is \<^verbatim>\<open>["x"]\<close>. The method does not get there: \<^verbatim>\<open>stripAll\<close>
  hands \<^verbatim>\<open>this.stripHighlights\<close> and its three siblings to \<^verbatim>\<open>map\<close> as plain
  functions, they run without a receiver, and the first of them throws a TypeError on
  \<^verbatim>\<open>this.strip\<close>. Both calls end with that error. With the callbacks run on the
  tokenizer the iteration yields the two results of the claim.
\<close>

theorem tokenize_wrapped_word_throws:
  "tokenize (js ''**_word_**'') = Inl TypeError \<and> tokenize (js ''==x=='') = Inl TypeError \<and>
   tokenize_with Tokenizer (js ''**_word_**'') = Inr [js ''word''] \<and>
   tokenize_with Tokenizer (js ''==x=='') = Inr [js ''x'']"
  by (simp add: tokenize_eval strip_eval)


text \<open>
  C6: the claim is that purely numeric candidates are discarded and a bare trailing
  period is stripped, so that \<^verbatim>\<open>tokenize("3.14 is pi.")\<close> is \<^verbatim>\<open>["is", "pi"]\<close>. The
  number is discarded (the candidates are "is" and "pi."), but the call ends with the
  TypeError of the unbound strip callbacks when the first candidate reaches
  \<^verbatim>\<open>stripAll\<close>. With the callbacks run on the tokenizer the result is that of the claim.
\<close>

theorem tokenize_number_sentence_throws:
  "tokenize (js ''3.14 is pi.'') = Inl TypeError \<and>
   candidates (js ''3.14 is pi.'') = [js ''is'', js ''pi.''] \<and>
   tokenize_with Tokenizer (js ''3.14 is pi.'') = Inr [js ''is'', js ''pi'']"
  by (simp add: tokenize_eval strip_eval)

lemma stripAll_iter_enough:
  "length token < n \<Longrightarrow> stripAll_iter n thisArg token = Some (stripAll_loop thisArg token)"
proof (induction n arbitrary: token)
  case 0
  then show ?case by simp
next
  case (Suc n)
  show ?case
  proof (cases "strip_pass thisArg token")
    case (Inl e)
    then show ?thesis by (simp add: stripAll_loop.simps)
  next
    case (Inr token')
    show ?thesis
    proof (cases "token' = token")
      case True
      with Inr show ?thesis by (simp add: stripAll_loop.simps)
    next
      case False
      with Inr strip_pass_cases have "length token' < length token" by blast
      with Suc.prems have "length token' < n" by simp
      from Suc.IH [OF this] Inr False show ?thesis
        by (simp add: stripAll_loop.simps [of thisArg token])
    qed
  qed
qed


text \<open>
  C9: for every input string the loop of \<^verbatim>\<open>stripAll\<close> terminates. A full pass of the
  four strips that returns a token returns it unchanged, which ends the loop, or returns
  a strictly shorter one; a pass that throws ends the loop as well. So the loop makes at
  most length of the token plus one passes: with that bound on the number of passes it
  reaches the result of the loop. This holds whatever receiver the strip callbacks run
  with, so for the source (no receiver) too.
\<close>

theorem stripAll_terminates:
  "(strip_pass thisArg token = Inr token' \<longrightarrow> token' = token \<or> length token' < length token) \<and>
   stripAll_iter (length token + 1) thisArg token = Some (stripAll_loop thisArg token)"
  using strip_pass_cases [of thisArg token token'] stripAll_iter_enough [of token "length token + 1" thisArg]
  by simp

theorem stripAll_terminates_witness:
  "strip_pass Tokenizer (js ''**a'') = Inr (js ''a'') \<and> length (js ''a'') < length (js ''**a'') \<and>
   stripAll_iter (length (js ''**a'') + 1) Tokenizer (js ''**a'') = Some (Inr (js ''a'')) \<and>
   stripAll_iter (length (js ''a'') + 1) Undefined (js ''a'') = Some (Inl TypeError)"
  using stripAll_terminates [of Tokenizer "js ''**a''" "js ''a''"]
    stripAll_terminates [of Undefined "js ''a''" "js ''a''"]
  by (simp add: strip_eval stripAll_loop.simps)






















lemma strip_pass_Undefined: "strip_pass Undefined token = Inl TypeError"
  by (simp add: strip_pass_def and_then_def stripHighlights_def this_strip_def)

lemma stripAll_with_Undefined:
  "stripAll_with Undefined token = (if token = [] then Inr [] else Inl TypeError)"
  by (simp add: stripAll_with_def stripAll_loop.simps [of Undefined token] strip_pass_Undefined)

lemma map_result_stripAll_Undefined:
  "map_result (stripAll_with Undefined) cs = Inr ws \<Longrightarrow> list_all (\<lambda>w. w = []) ws"
  by (induction cs arbitrary: ws) (auto simp: stripAll_with_Undefined split: if_splits sum.splits)

lemma tokenize_results: "tokenize content = Inr tokens \<Longrightarrow> tokens = []"
proof -
  assume a: "tokenize content = Inr tokens"
  show ?thesis
  proof (cases "list_all isWhiteSpace content")
    case True
    with a show ?thesis by (simp add: tokenize_def tokenize_with_def)
  next
    case False
    with a obtain ws where ws: "map_result (stripAll_with Undefined) (candidates content) = Inr ws"
      and t: "tokens = filter (\<lambda>token. length token > 0) ws"
      by (auto simp: tokenize_def tokenize_with_def and_then_def split: sum.splits)
    from map_result_stripAll_Undefined [OF ws] t show ?thesis
      by (auto simp: list_all_iff filter_empty_conv)
  qed
qed

lemma tokenize_throws_or_empty: "tokenize content = Inr [] \<or> tokenize content = Inl TypeError"
proof (cases "tokenize content")
  case (Inl e)
  then show ?thesis by (cases e) simp
next
  case (Inr tokens)
  with tokenize_results [OF Inr] show ?thesis by simp
qed

text \<open>
  The underscore is a word character (\<^verbatim>\<open>\w\<close>) and an emphasis marker. With the strip
  callbacks run on the tokenizer, the candidate \<^verbatim>\<open>_-\<close> passes the three filters and is
  stripped to the token \<^verbatim>\<open>-\<close>, which has no word character; the source never gets
  that far.
\<close>

lemma bound_callbacks_strip_underscore:
  "isWordChar 95 \<and> stripFormatting Tokenizer (js ''_-'') = Inr (js ''-'') \<and>
   candidates (js ''_-'') = [js ''_-''] \<and>
   tokenize_with Tokenizer (js ''_-'') = Inr [js ''-''] \<and> isNonWord (js ''-'') \<and>
   tokenize (js ''_-'') = Inl TypeError"
  by (simp add: tokenize_eval strip_eval)



section \<open>Properties of the aggregation engine\<close>

text \<open>
  The sum of one field over the records of the store, a sequence of calls of
  \<^verbatim>\<open>update\<close> with a record, and a sequence of calls of the collector's methods.
\<close>

definition total :: "(FullVaultMetrics \<Rightarrow> int) \<Rightarrow> (jsstring \<times> FullVaultMetrics) list \<Rightarrow> int" where
  "total f store = sum_list (map (\<lambda>entry. f (snd entry)) store)"

fun apply_all :: "((TFile + jsstring) \<times> FullVaultMetrics) list \<Rightarrow> collector \<Rightarrow> collector" where
  "apply_all [] st = st"
| "apply_all ((k, r) # calls) st = apply_all calls (update k (Some r) st)"

definition sums_match :: "collector \<Rightarrow> bool" where
  "sums_match st \<longleftrightarrow>
     (\<exists>agg. vaultMetrics st = Some agg \<and>
        files agg = total files (data st) \<and> notes agg = total notes (data st) \<and>
        attachments agg = total attachments (data st) \<and>
        size_bytes agg = total size_bytes (data st) \<and> links agg = total links (data st) \<and>
        words agg = total words (data st) \<and> tags agg = total tags (data st)) \<and>
     distinct (map fst (data st))"

datatype action =
    Start "TFile list"
  | Enqueue "abstract_file + jsstring"
  | Drain environment
  | Update "TFile + jsstring" "FullVaultMetrics option"

fun run :: "action list \<Rightarrow> collector \<Rightarrow> collector" where
  "run [] st = st"
| "run (Start vault_files # acts) st = run acts (start vault_files st)"
| "run (Enqueue fileOrPath # acts) st = run acts (push fileOrPath st)"
| "run (Drain env # acts) st = run acts (processBacklog env st)"
| "run (Update fileOrPath metrics # acts) st = run acts (update fileOrPath metrics st)"

text \<open>Values for the concrete runs below: a file, its metadata (five links, one tag), and
  a vault in which every path is a note and the metadata cache gives one answer.\<close>

definition example_file :: "jsstring \<Rightarrow> jsstring \<Rightarrow> TFile" where
  "example_file p ext = \<lparr>path = p, extension = ext, stat_size = 10\<rparr>"

definition example_metadata :: CachedMetadata where
  "example_metadata =
     \<lparr>md_links = Some [(), (), (), (), ()], md_tags = Some [()], md_sections = None\<rparr>"

definition example_env :: "cache_result \<Rightarrow> environment" where
  "example_env answer =
     \<lparr>getAbstractFileByPath = (\<lambda>p. Some (File (example_file p (js ''md'')))),
      getFileCache = (\<lambda>file. answer),
      cachedRead = (\<lambda>file. None)\<rparr>"

lemmas engine_eval = processBacklog_def process_path_def collect_def getFileType_def toLowerCase_def
  NoteMetricsCollector_collect_def FileMetricsCollector_collect_def count_words_def array_length_def
  update_def push_def excluded_def empty_state_def new_FullVaultMetrics_def inc_def dec_def
  recompute_quality_def example_env_def example_file_def example_metadata_def js_def Let_def

lemma total_update:
  assumes "f new_FullVaultMetrics = 0"
  shows "total f (AList.update k v store) =
     total f store - f (case map_of store k of Some m \<Rightarrow> m | None \<Rightarrow> new_FullVaultMetrics) + f v"
  using assms by (induction store) (auto simp: total_def)

lemma sums_match_empty: "sums_match (empty_state excl)"
  by (simp add: sums_match_def empty_state_def total_def new_FullVaultMetrics_def)

lemma sums_match_update:
  assumes "sums_match st"
  shows "sums_match (update k (Some r) st)"
proof -
  from assms obtain agg where agg: "vaultMetrics st = Some agg" and
    f: "files agg = total files (data st)" "notes agg = total notes (data st)"
       "attachments agg = total attachments (data st)" "size_bytes agg = total size_bytes (data st)"
       "links agg = total links (data st)" "words agg = total words (data st)"
       "tags agg = total tags (data st)" and
    d: "distinct (map fst (data st))"
    unfolding sums_match_def by blast
  define key where "key = (case k of Inl file \<Rightarrow> path file | Inr p \<Rightarrow> p)"
  define old where "old = (case map_of (data st) key of Some m \<Rightarrow> m | None \<Rightarrow> new_FullVaultMetrics)"
  have st': "update k (Some r) st =
      st\<lparr>data := AList.update key r (data st), vaultMetrics := Some (inc (dec agg old) r)\<rparr>"
    by (simp add: update_def Let_def key_def old_def agg)
  have z: "files new_FullVaultMetrics = 0" "notes new_FullVaultMetrics = 0"
      "attachments new_FullVaultMetrics = 0" "size_bytes new_FullVaultMetrics = 0"
      "links new_FullVaultMetrics = 0" "words new_FullVaultMetrics = 0" "tags new_FullVaultMetrics = 0"
    by (simp_all add: new_FullVaultMetrics_def)
  have "files (inc (dec agg old) r) = total files (AList.update key r (data st))"
    by (simp add: total_update [of files, OF z(1)] old_def inc_def dec_def recompute_quality_def f)
  moreover have "notes (inc (dec agg old) r) = total notes (AList.update key r (data st))"
    by (simp add: total_update [of "notes", OF z(2)] old_def inc_def dec_def recompute_quality_def f)
  moreover have "attachments (inc (dec agg old) r) = total attachments (AList.update key r (data st))"
    by (simp add: total_update [of attachments, OF z(3)] old_def inc_def dec_def recompute_quality_def f)
  moreover have "size_bytes (inc (dec agg old) r) = total size_bytes (AList.update key r (data st))"
    by (simp add: total_update [of size_bytes, OF z(4)] old_def inc_def dec_def recompute_quality_def f)
  moreover have "links (inc (dec agg old) r) = total links (AList.update key r (data st))"
    by (simp add: total_update [of links, OF z(5)] old_def inc_def dec_def recompute_quality_def f)
  moreover have "words (inc (dec agg old) r) = total words (AList.update key r (data st))"
    by (simp add: total_update [of words, OF z(6)] old_def inc_def dec_def recompute_quality_def f)
  moreover have "tags (inc (dec agg old) r) = total tags (AList.update key r (data st))"
    by (simp add: total_update [of tags, OF z(7)] old_def inc_def dec_def recompute_quality_def f)
  moreover have "distinct (map fst (AList.update key r (data st)))"
    using d by (simp add: distinct_update)
  ultimately show ?thesis
    unfolding sums_match_def st' by simp
qed

lemma sums_match_apply_all: "sums_match st \<Longrightarrow> sums_match (apply_all calls st)"
  by (induction calls st rule: apply_all.induct) (simp_all add: sums_match_update)

text \<open>
  C1: after any sequence of \<^verbatim>\<open>update\<close> calls with a record, from the empty state, the
  aggregate is the field-wise sum (files, notes, attachments, size, links, words, tags)
  of the records in the store, which holds one record per key. The fields are integers
  here; \<^verbatim>\<open>inc\<close> and \<^verbatim>\<open>dec\<close> are modelled from the spec.
\<close>

theorem aggregate_is_sum_of_store:
  "\<exists>agg. vaultMetrics (apply_all calls (empty_state excl)) = Some agg \<and>
     files agg = total files (data (apply_all calls (empty_state excl))) \<and>
     notes agg = total notes (data (apply_all calls (empty_state excl))) \<and>
     attachments agg = total attachments (data (apply_all calls (empty_state excl))) \<and>
     size_bytes agg = total size_bytes (data (apply_all calls (empty_state excl))) \<and>
     links agg = total links (data (apply_all calls (empty_state excl))) \<and>
     words agg = total words (data (apply_all calls (empty_state excl))) \<and>
     tags agg = total tags (data (apply_all calls (empty_state excl))) \<and>
     distinct (map fst (data (apply_all calls (empty_state excl))))"
  using sums_match_apply_all [OF sums_match_empty, of calls excl]
  unfolding sums_match_def by blast

lemma inc_dec_same: "inc (dec (inc vm r) r) r = inc vm r"
  by (simp add: inc_def dec_def recompute_quality_def)

text \<open>
  C3: \<^verbatim>\<open>update\<close> with the same key and record twice in a row leaves the state of the
  first call, the aggregate included (its quality too, which \<^verbatim>\<open>inc\<close> recomputes from
  the sums).
\<close>

theorem update_twice:
  "update k (Some r) (update k (Some r) st) = update k (Some r) st"
proof -
  define key where "key = (case k of Inl file \<Rightarrow> path file | Inr p \<Rightarrow> p)"
  define old where "old = (case map_of (data st) key of Some m \<Rightarrow> m | None \<Rightarrow> new_FullVaultMetrics)"
  have st': "update k (Some r) st =
      st\<lparr>data := AList.update key r (data st),
         vaultMetrics := map_option (\<lambda>vm. inc (dec vm old) r) (vaultMetrics st)\<rparr>"
    by (simp add: update_def Let_def key_def old_def option.map_comp comp_def)
  have again: "map_of (AList.update key r (data st)) key = Some r"
    by (simp add: update_conv')
  show ?thesis
    unfolding st'
    by (cases "vaultMetrics st")
      (simp_all add: update_def Let_def key_def [symmetric] again inc_dec_same)
qed

lemma backlog_update: "backlog (update k m st) = backlog st"
  by (simp add: update_def Let_def)

lemma backlog_process_path: "backlog (process_path env p st) = backlog st"
  by (simp add: process_path_def backlog_update split: option.splits abstract_file.splits)

lemma backlog_drain: "\<exists>n. backlog (drain env ps st) = drop n ps"
proof (induction ps arbitrary: st)
  case Nil
  then show ?case by simp
next
  case (Cons p rest)
  show ?case
  proof (cases "excluded (excludeDirectories st) p")
    case True
    then have "backlog (drain env (p # rest) st) = drop 1 (p # rest)" by simp
    then show ?thesis by blast
  next
    case False
    from Cons.IH obtain n where
      "backlog (drain env rest (process_path env p (st\<lparr>backlog := rest\<rparr>))) = drop n rest" by blast
    with False have "backlog (drain env (p # rest) st) = drop (Suc n) (p # rest)" by simp
    then show ?thesis by blast
  qed
qed

lemma distinct_push: "distinct (backlog st) \<Longrightarrow> distinct (backlog (push a st))"
  by (auto simp: push_def split: sum.splits abstract_file.splits)

lemma distinct_processBacklog:
  assumes "distinct (backlog st)"
  shows "distinct (backlog (processBacklog env st))"
proof -
  from backlog_drain [of env "backlog st" st] obtain n where
    "backlog (processBacklog env st) = drop n (backlog st)"
    unfolding processBacklog_def by blast
  with assms show ?thesis by simp
qed

lemma distinct_pushes:
  "distinct (backlog st) \<Longrightarrow>
   distinct (backlog (foldl (\<lambda>s file. push (Inl (File file)) s) st vault_files))"
  by (induction vault_files arbitrary: st) (simp_all add: distinct_push)

lemma distinct_start: "distinct (backlog (start vault_files st))"
  unfolding start_def by (rule distinct_pushes) simp

lemma distinct_run: "distinct (backlog st) \<Longrightarrow> distinct (backlog (run acts st))"
  by (induction acts st rule: run.induct)
    (simp_all add: distinct_push distinct_processBacklog distinct_start backlog_update)

lemma count_list_distinct: "distinct xs \<Longrightarrow> count_list xs k = (if k \<in> set xs then 1 else 0)"
  by (induction xs) auto

lemma push_path_mem: "k \<in> set (backlog (push (Inr k) st))"
  by (simp add: push_def)

lemma push_file_mem: "path file \<in> set (backlog (push (Inl (File file)) st))"
  by (simp add: push_def)

text \<open>
  C4: the backlog never holds a key twice, whatever starts, pushes, drains and updates
  came before from the empty state; after \<^verbatim>\<open>push(k); push(k)\<close> the key is there exactly once, for a path
  and for a file alike, and the second \<^verbatim>\<open>push\<close> changes nothing.
\<close>

theorem backlog_has_no_duplicates:
  "distinct (backlog (run acts (empty_state excl))) \<and>
   count_list (backlog (push (Inr k) (push (Inr k) (run acts (empty_state excl))))) k = 1 \<and>
   count_list (backlog (push (Inl (File file)) (push (Inl (File file)) (run acts (empty_state excl)))))
     (path file) = 1 \<and>
   push (Inr k) (push (Inr k) st) = push (Inr k) st \<and>
   push (Inl (File file)) (push (Inl (File file)) st) = push (Inl (File file)) st"
proof -
  let ?s = "run acts (empty_state excl)"
  have d: "distinct (backlog ?s)"
    by (rule distinct_run) (simp add: empty_state_def)
  have "distinct (backlog (push (Inr k) (push (Inr k) ?s)))"
    using d by (intro distinct_push)
  moreover have "k \<in> set (backlog (push (Inr k) (push (Inr k) ?s)))"
    by (rule push_path_mem)
  ultimately have c1: "count_list (backlog (push (Inr k) (push (Inr k) ?s))) k = 1"
    by (simp add: count_list_distinct)
  have "distinct (backlog (push (Inl (File file)) (push (Inl (File file)) ?s)))"
    using d by (intro distinct_push)
  moreover have "path file \<in> set (backlog (push (Inl (File file)) (push (Inl (File file)) ?s)))"
    by (rule push_file_mem)
  ultimately have c2:
    "count_list (backlog (push (Inl (File file)) (push (Inl (File file)) ?s))) (path file) = 1"
    by (simp add: count_list_distinct)
  have i1: "push (Inr k) (push (Inr k) st) = push (Inr k) st"
    by (simp add: push_def)
  have i2: "push (Inl (File file)) (push (Inl (File file)) st) = push (Inl (File file)) st"
    by (simp add: push_def)
  from d c1 c2 i1 i2 show ?thesis by blast
qed

lemma toLowerCase_md:
  "toLowerCase ext = js ''md'' \<longleftrightarrow> ext \<in> {js ''md'', js ''Md'', js ''mD'', js ''MD''}"
proof (cases ext)
  case Nil
  then show ?thesis by (simp add: toLowerCase_def js_def)
next
  case (Cons a r1)
  note c1 = this
  show ?thesis
  proof (cases r1)
    case Nil
    with c1 show ?thesis by (simp add: toLowerCase_def js_def)
  next
    case (Cons b r2)
    note c2 = this
    show ?thesis
    proof (cases r2)
      case Nil
      with c1 c2 show ?thesis by (auto simp: toLowerCase_def js_def)
    next
      case (Cons c r3)
      with c1 c2 show ?thesis by (auto simp: toLowerCase_def js_def)
    qed
  qed
qed

text \<open>
  C7: when the metadata cache has the file's metadata, a file whose extension is "md" in
  any case gives files = 1, notes = 1, attachments = 0 and quality = links / notes =
  links (5 links give 5.0); any other extension gives files = 1, notes = 0,
  attachments = 1, links = words = tags = 0 and quality = 0.
\<close>

theorem classification_and_quality:
  assumes "getFileCache env file = Cache md"
  shows "(toLowerCase (extension file) = js ''md'' \<longrightarrow>
           (\<exists>m. collect env file = Some m \<and> files m = 1 \<and> notes m = 1 \<and> attachments m = 0 \<and>
                links m = array_length (md_links md) \<and>
                quality m = real_of_int (links m) / real_of_int (notes m) \<and>
                quality m = real_of_int (links m) \<and> (links m = 5 \<longrightarrow> quality m = 5))) \<and>
         (toLowerCase (extension file) \<noteq> js ''md'' \<longrightarrow>
           (\<exists>m. collect env file = Some m \<and> files m = 1 \<and> notes m = 0 \<and> attachments m = 1 \<and>
                links m = 0 \<and> words m = 0 \<and> tags m = 0 \<and> quality m = 0))"
  using assms
  by (simp add: collect_def getFileType_def NoteMetricsCollector_collect_def
      FileMetricsCollector_collect_def Let_def new_FullVaultMetrics_def)

theorem classification_and_quality_witness:
  "getFileCache (example_env (Cache example_metadata)) (example_file (js ''a.MD'') (js ''MD''))
     = Cache example_metadata \<and>
   toLowerCase (extension (example_file (js ''a.MD'') (js ''MD''))) = js ''md'' \<and>
   (\<exists>m. collect (example_env (Cache example_metadata)) (example_file (js ''a.MD'') (js ''MD''))
          = Some m \<and>
        files m = 1 \<and> notes m = 1 \<and> attachments m = 0 \<and> links m = 5 \<and> quality m = 5) \<and>
   toLowerCase (extension (example_file (js ''b.png'') (js ''png''))) \<noteq> js ''md'' \<and>
   (\<exists>m. collect (example_env (Cache example_metadata)) (example_file (js ''b.png'') (js ''png''))
          = Some m \<and>
        files m = 1 \<and> notes m = 0 \<and> attachments m = 1 \<and> links m = 0 \<and> words m = 0 \<and>
        tags m = 0 \<and> quality m = 0)"
  using classification_and_quality [of "example_env (Cache example_metadata)"
      "example_file (js ''a.MD'') (js ''MD'')" example_metadata]
    classification_and_quality [of "example_env (Cache example_metadata)"
      "example_file (js ''b.png'') (js ''png'')" example_metadata]
  by (simp add: engine_eval)

text \<open>
  C8: when \<^verbatim>\<open>getFileCache\<close> returns null or throws, \<^verbatim>\<open>collect\<close> returns null, and the
  turn of the drain for a path of that file leaves the whole state as it was: the store,
  a stale record of the path included, and the aggregate. The two cases do not differ.
\<close>

theorem missing_structure_leaves_state:
  assumes "getFileCache env file = CacheNull \<or> getFileCache env file = CacheThrows"
  shows "collect env file = None \<and>
         (getAbstractFileByPath env p = Some (File file) \<longrightarrow>
            process_path env p st = st \<and>
            (backlog st = [p] \<longrightarrow> processBacklog env st = st\<lparr>backlog := []\<rparr>))"
proof -
  from assms have c: "collect env file = None"
    by (auto simp: collect_def)
  then have "getAbstractFileByPath env p = Some (File file) \<Longrightarrow> process_path env p st' = st'" for st'
    by (simp add: process_path_def)
  with c show ?thesis
    by (simp add: processBacklog_def)
qed

theorem missing_structure_leaves_state_witness:
  "getFileCache (example_env CacheThrows) (example_file (js ''gone.md'') (js ''md'')) = CacheThrows \<and>
   collect (example_env CacheThrows) (example_file (js ''gone.md'') (js ''md'')) = None \<and>
   collect (example_env CacheNull) (example_file (js ''gone.md'') (js ''md'')) = None \<and>
   getAbstractFileByPath (example_env CacheThrows) (js ''gone.md'')
     = Some (File (example_file (js ''gone.md'') (js ''md''))) \<and>
   process_path (example_env CacheThrows) (js ''gone.md'')
     (update (Inr (js ''gone.md'')) (Some (FileMetricsCollector_collect (example_file [] []) example_metadata))
        (push (Inr (js ''gone.md'')) (empty_state [])))
   = update (Inr (js ''gone.md'')) (Some (FileMetricsCollector_collect (example_file [] []) example_metadata))
        (push (Inr (js ''gone.md'')) (empty_state [])) \<and>
   processBacklog (example_env CacheThrows)
     (update (Inr (js ''gone.md'')) (Some (FileMetricsCollector_collect (example_file [] []) example_metadata))
        (push (Inr (js ''gone.md'')) (empty_state [])))
   = (update (Inr (js ''gone.md'')) (Some (FileMetricsCollector_collect (example_file [] []) example_metadata))
        (push (Inr (js ''gone.md'')) (empty_state [])))\<lparr>backlog := []\<rparr>"
  using missing_structure_leaves_state [of "example_env CacheThrows"
      "example_file (js ''gone.md'') (js ''md'')" "js ''gone.md''"
      "update (Inr (js ''gone.md'')) (Some (FileMetricsCollector_collect (example_file [] []) example_metadata))
        (push (Inr (js ''gone.md'')) (empty_state []))"]
    missing_structure_leaves_state [of "example_env CacheNull"
      "example_file (js ''gone.md'') (js ''md'')" "js ''gone.md''" "empty_state []"]
  by (simp add: engine_eval)

text \<open>
  An excluded path at the head of the backlog is taken off and nothing else changes, and
  a drain never touches the store's entry of an excluded path.
\<close>

lemma excluded_head_is_dropped:
  "excluded (excludeDirectories st) p \<Longrightarrow> drain env (p # rest) st = st\<lparr>backlog := rest\<rparr>"
  by simp

lemma excludeDirectories_process_path:
  "excludeDirectories (process_path env p st) = excludeDirectories st"
  by (simp add: process_path_def update_def Let_def split: option.splits abstract_file.splits)

lemma process_path_other_key:
  "q \<noteq> p \<Longrightarrow> map_of (data (process_path env q st)) p = map_of (data st) p"
  by (simp add: process_path_def update_def Let_def update_conv'
      split: option.splits abstract_file.splits)

lemma drain_keeps_excluded_entry:
  "excluded (excludeDirectories st) p \<Longrightarrow> map_of (data (drain env ps st)) p = map_of (data st) p"
proof (induction ps arbitrary: st)
  case Nil
  then show ?case by simp
next
  case (Cons q rest)
  show ?case
  proof (cases "excluded (excludeDirectories st) q")
    case True
    then show ?thesis by simp
  next
    case False
    with Cons.prems have "q \<noteq> p" by auto
    let ?st = "process_path env q (st\<lparr>backlog := rest\<rparr>)"
    have "excluded (excludeDirectories ?st) p"
      using Cons.prems by (simp add: excludeDirectories_process_path)
    from Cons.IH [OF this] have "map_of (data (drain env rest ?st)) p = map_of (data ?st) p" .
    also have "\<dots> = map_of (data st) p"
      using \<open>q \<noteq> p\<close> by (simp add: process_path_other_key)
    finally show ?thesis using False by simp
  qed
qed

text \<open>
  C2: the claim is that a drain skips an excluded key and goes on with the rest of the
  backlog. The excluded key leaves no entry and no trace in the aggregate, but the loop
  ends there (\<^verbatim>\<open>break\<close>): with the excluded directories "archive" and the backlog
  \<^verbatim>\<open>archive/old.md\<close>, \<^verbatim>\<open>notes/new.md\<close>, the drain returns with an empty store and
  \<^verbatim>\<open>notes/new.md\<close> still queued, although that key is not excluded and a drain of it
  alone records it.
\<close>

theorem excluded_key_ends_drain:
  "excluded (js ''archive'') (js ''archive/old.md'') \<and>
   \<not> excluded (js ''archive'') (js ''notes/new.md'') \<and>
   processBacklog (example_env (Cache example_metadata))
     (push (Inr (js ''notes/new.md'')) (push (Inr (js ''archive/old.md'')) (empty_state (js ''archive''))))
   = (empty_state (js ''archive''))\<lparr>backlog := [js ''notes/new.md'']\<rparr> \<and>
   map_of (data (processBacklog (example_env (Cache example_metadata))
     (push (Inr (js ''notes/new.md'')) (empty_state (js ''archive''))))) (js ''notes/new.md'')
   = Some \<lparr>files = 1, notes = 1, attachments = 0, size_bytes = 10, links = 5, words = 0,
           quality = 5, tags = 1\<rparr>"
  by (simp add: engine_eval)

text \<open>
  What the TypeError of C5 does to a note: the exception is caught by the \<^verbatim>\<open>catch\<close> of
  \<^verbatim>\<open>cachedRead(...).then(...)\<close>, and the note counts no words.
\<close>

lemma note_counts_no_words:
  "count_words \<lparr>getAbstractFileByPath = (\<lambda>p. None), getFileCache = (\<lambda>file. CacheNull),
                 cachedRead = (\<lambda>file. Some (js ''Hello world.''))\<rparr>
     (example_file (js ''a.md'') (js ''md''))
     \<lparr>md_links = None, md_tags = None,
      md_sections = Some [\<lparr>section_type = js ''paragraph'', start_offset = 0, end_offset = 12\<rparr>]\<rparr>
   = 0"
  by (simp add: count_words_def section_words_def TOKENIZERS_def tokenizer_tokenize_def
      substring_def and_then_def example_file_def tokenize_eval strip_eval)

end
